theory Spec2Isabelle
  imports Complex_Main "HOL-Library.Multiset"
begin

section \<open>Data model\<close>

text \<open>
  \<^verbatim>\<open>FolderInfo\<close> is a dataclass with the fields \<^verbatim>\<open>path\<close>, \<^verbatim>\<open>size\<close> and
  \<^verbatim>\<open>children\<close>. The field \<^verbatim>\<open>size\<close> is called \<open>size_field\<close> here, since \<open>size\<close>
  is a constant of HOL. Python integers are unbounded, hence \<open>int\<close>.
\<close>

datatype FolderInfo =
  FolderInfo (path: string) (size_field: int) (children: "FolderInfo list")

text \<open>
  The property \<^verbatim>\<open>total_size\<close>:
  \<^verbatim>\<open>return self.size + sum(child.total_size for child in self.children)\<close>.
\<close>

fun total_size :: "FolderInfo \<Rightarrow> int" where
  "total_size (FolderInfo p s cs) = s + sum_list (map total_size cs)"

section \<open>The file system seen by the scanner\<close>

text \<open>
  The scanner asks four things of a \<^verbatim>\<open>Path\<close>: \<^verbatim>\<open>is_file()\<close>, \<^verbatim>\<open>is_dir()\<close>,
  \<^verbatim>\<open>stat().st_size\<close> and \<^verbatim>\<open>iterdir()\<close>. An entry of the file system is therefore
  a regular file with the outcome of reading its size (\<open>None\<close>: the read raises), a
  directory with the outcome of listing it (\<open>None\<close>: the listing raises), an entry that
  is neither (a socket, a device, a dangling link), or an entry whose status cannot be
  read (a link into a directory without search permission, a name that is too long).
  Each entry carries the path that \<^verbatim>\<open>str(item)\<close> returns. Entries form a finite tree:
  link cycles are outside the model.

  \<^verbatim>\<open>is_file()\<close> and \<^verbatim>\<open>is_dir()\<close> read the status of the entry. pathlib answers
  \<^verbatim>\<open>False\<close> when the entry is missing and raises any other \<^verbatim>\<open>OSError\<close>, so both
  tests return a truth value or raise.
\<close>

datatype fsitem =
    RegFile string "nat option"
  | Dir string "fsitem list option"
  | Other string
  | Unstattable string

datatype os_error = PermissionError | NotADirectoryError

fun item_path :: "fsitem \<Rightarrow> string" where
  "item_path (RegFile p _) = p"
| "item_path (Dir p _) = p"
| "item_path (Other p) = p"
| "item_path (Unstattable p) = p"

fun is_file :: "fsitem \<Rightarrow> os_error + bool" where
  "is_file (RegFile _ _) = Inr True"
| "is_file (Dir _ _) = Inr False"
| "is_file (Other _) = Inr False"
| "is_file (Unstattable _) = Inl PermissionError"

fun is_dir :: "fsitem \<Rightarrow> os_error + bool" where
  "is_dir (RegFile _ _) = Inr False"
| "is_dir (Dir _ _) = Inr True"
| "is_dir (Other _) = Inr False"
| "is_dir (Unstattable _) = Inl PermissionError"

text \<open>
  \<^verbatim>\<open>item.stat().st_size\<close>. The scanner calls it on regular files only; a size is a
  natural number.
\<close>

fun stat_st_size :: "fsitem \<Rightarrow> os_error + nat" where
  "stat_st_size (RegFile _ (Some n)) = Inr n"
| "stat_st_size (RegFile _ None) = Inl PermissionError"
| "stat_st_size (Dir _ _) = Inr 0"
| "stat_st_size (Other _) = Inr 0"
| "stat_st_size (Unstattable _) = Inl PermissionError"

text \<open>
  \<^verbatim>\<open>path.iterdir()\<close>: the entries of a readable directory, \<^verbatim>\<open>PermissionError\<close> for an
  unreadable one or an entry without status, \<^verbatim>\<open>NotADirectoryError\<close> (an \<^verbatim>\<open>OSError\<close>)
  for anything else.
\<close>

fun iterdir :: "fsitem \<Rightarrow> os_error + fsitem list" where
  "iterdir (Dir _ (Some entries)) = Inr entries"
| "iterdir (Dir _ None) = Inl PermissionError"
| "iterdir (RegFile _ _) = Inl NotADirectoryError"
| "iterdir (Other _) = Inl NotADirectoryError"
| "iterdir (Unstattable _) = Inl PermissionError"

lemma iterdir_size:
  "iterdir item = Inr entries \<Longrightarrow> size_list size entries < size item"
  by (cases item rule: iterdir.cases) auto

section \<open>DiskScanner\<close>

text \<open>
  The field \<^verbatim>\<open>self.cancelled\<close> is written by another thread (\<^verbatim>\<open>ScannerWorker.stop\<close>)
  and read at one place only, the first line of \<^verbatim>\<open>_scan_folder\<close>. The model numbers
  these reads: \<open>cancelled n\<close> is the value that the \<open>n\<close>-th read sees, and the scanner
  threads the number of reads made so far. Nothing is assumed about \<open>cancelled\<close>.

  \<open>scan_folder\<close> is \<^verbatim>\<open>_scan_folder\<close>; \<open>scan_items\<close> is its \<^verbatim>\<open>for item in path.iterdir()\<close>
  loop, with the list \<^verbatim>\<open>children\<close> built so far as \<open>kids\<close>. The loop returns the
  children, or the error that leaves it: the two tests \<^verbatim>\<open>item.is_file()\<close> and
  \<^verbatim>\<open>item.is_dir()\<close> stand outside the inner \<^verbatim>\<open>try\<close> blocks, so an error of theirs
  ends the loop and reaches the outer handler of \<^verbatim>\<open>_scan_folder\<close>, which returns the
  node without children. The inner handler around \<^verbatim>\<open>stat()\<close> skips the one file. The
  inner handler around the recursive call is never entered, since the call returns a
  node in every case.
\<close>

function scan_folder :: "(nat \<Rightarrow> bool) \<Rightarrow> nat \<Rightarrow> fsitem \<Rightarrow> FolderInfo \<times> nat"
  and scan_items ::
    "(nat \<Rightarrow> bool) \<Rightarrow> nat \<Rightarrow> FolderInfo list \<Rightarrow> fsitem list
       \<Rightarrow> (os_error + FolderInfo list) \<times> nat"
where
  "scan_folder cancelled n item =
     (if cancelled n then (FolderInfo (item_path item) 0 [], Suc n)
      else
        (case iterdir item of
           Inr entries \<Rightarrow>
             (case scan_items cancelled (Suc n) [] entries of
                (Inr kids, n') \<Rightarrow> (FolderInfo (item_path item) 0 kids, n')
              | (Inl _, n') \<Rightarrow> (FolderInfo (item_path item) 0 [], n'))
         | Inl _ \<Rightarrow> (FolderInfo (item_path item) 0 [], Suc n)))"
| "scan_items cancelled n kids [] = (Inr kids, n)"
| "scan_items cancelled n kids (item # rest) =
     (case is_file item of
        Inl e \<Rightarrow> (Inl e, n)
      | Inr file \<Rightarrow>
          if file then
            (case stat_st_size item of
               Inr file_size \<Rightarrow>
                 scan_items cancelled n
                   (kids @ [FolderInfo (item_path item) (int file_size) []]) rest
             | Inl _ \<Rightarrow> scan_items cancelled n kids rest)
          else
            (case is_dir item of
               Inl e \<Rightarrow> (Inl e, n)
             | Inr dir \<Rightarrow>
                 if dir then
                   (case scan_folder cancelled n item of
                      (child_info, n') \<Rightarrow>
                        scan_items cancelled n' (kids @ [child_info]) rest)
                 else scan_items cancelled n kids rest))"
  by pat_completeness auto
termination
  by (relation "measure (\<lambda>a. case a of
                    Inl (c, n, item) \<Rightarrow> size item
                  | Inr (c, n, kids, items) \<Rightarrow> size_list size items)")
     (auto dest: iterdir_size)

text \<open>
  \<^verbatim>\<open>DiskScanner.scan\<close>. What the root path denotes is the argument: nothing
  (\<^verbatim>\<open>path.exists()\<close> is false), an entry, or a path on which \<^verbatim>\<open>Path(root_path)\<close> or
  \<^verbatim>\<open>path.exists()\<close> itself raises, which the handler \<^verbatim>\<open>except Exception\<close> turns into
  \<^verbatim>\<open>None\<close>.
\<close>

datatype root_lookup = Absent | Raising | Found fsitem

fun scan :: "(nat \<Rightarrow> bool) \<Rightarrow> root_lookup \<Rightarrow> FolderInfo option" where
  "scan cancelled Absent = None"
| "scan cancelled (Found item) = Some (fst (scan_folder cancelled 0 item))"
| "scan cancelled Raising = None"

section \<open>ScannerWorker\<close>

text \<open>
  The three signals of the worker, and \<^verbatim>\<open>run\<close> as the list of signals it emits.
  A \<^verbatim>\<open>FolderInfo\<close> is a dataclass without \<^verbatim>\<open>__bool__\<close> or \<^verbatim>\<open>__len__\<close>, so
  \<^verbatim>\<open>if result:\<close> tests for \<^verbatim>\<open>None\<close> only.
\<close>

datatype signal = Progress string | Finished FolderInfo | Error string

definition run :: "(nat \<Rightarrow> bool) \<Rightarrow> string \<Rightarrow> root_lookup \<Rightarrow> signal list" where
  "run cancelled root_path lookup =
     Progress (''Scanning '' @ root_path @ ''...'') #
     (case scan cancelled lookup of
        Some result \<Rightarrow> [Finished result]
      | None \<Rightarrow> [Error ''Failed to scan folder''])"

text \<open>
  Two ways the flag can behave, used at concrete inputs: \<^verbatim>\<open>stop()\<close> is never called,
  or it has been called by the time of read number \<open>k\<close> (the flag is never reset).
\<close>

definition never_cancelled :: "nat \<Rightarrow> bool" where
  "never_cancelled n = False"

definition cancelled_from :: "nat \<Rightarrow> nat \<Rightarrow> bool" where
  "cancelled_from k n = (k \<le> n)"

section \<open>Utility functions\<close>

text \<open>
  Python's \<^verbatim>\<open>float\<close> is modelled by \<open>real\<close>: \<^verbatim>\<open>/\<close> is exact division, and the
  format \<^verbatim>\<open>.1f\<close> rounds the exact value to one decimal, ties to even, as Python does on
  the value of the float. \<open>str_nat\<close> writes a natural number in decimal.
\<close>

fun str_nat :: "nat \<Rightarrow> string" where
  "str_nat n =
     (if n < 10 then [''0123456789'' ! n]
      else str_nat (n div 10) @ [''0123456789'' ! (n mod 10)])"

declare str_nat.simps [simp del]

definition round_half_even :: "real \<Rightarrow> int" where
  "round_half_even x =
     (let f = \<lfloor>x\<rfloor>; d = x - of_int f
      in if d < 1 / 2 then f
         else if 1 / 2 < d then f + 1
         else if even f then f else f + 1)"

definition format_1f :: "real \<Rightarrow> string" where
  "format_1f x =
     (let t = nat (round_half_even (\<bar>x\<bar> * 10))
      in (if x < 0 then ''-'' else []) @ str_nat (t div 10) @ ''.'' @ str_nat (t mod 10))"

text \<open>
  \<^verbatim>\<open>format_size\<close>: the \<^verbatim>\<open>for unit in [...]\<close> loop, with the units still to try as the
  list argument; the empty list is the \<^verbatim>\<open>return\<close> after the loop.
\<close>

fun format_size_loop :: "real \<Rightarrow> string list \<Rightarrow> string" where
  "format_size_loop size_bytes [] = format_1f size_bytes @ '' PB''"
| "format_size_loop size_bytes (unit # units) =
     (if size_bytes < 1024 then format_1f size_bytes @ '' '' @ unit
      else format_size_loop (size_bytes / 1024) units)"

definition format_size :: "int \<Rightarrow> string" where
  "format_size size_bytes =
     format_size_loop (real_of_int size_bytes) [''B'', ''KB'', ''MB'', ''GB'', ''TB'']"

text \<open>
  \<^verbatim>\<open>calculate_percentage\<close>. Python's \<^verbatim>\<open>/\<close> raises \<^verbatim>\<open>ZeroDivisionError\<close> on a zero
  divisor, so the division is a function into a sum type and the error is a value.
\<close>

datatype py_error = ZeroDivisionError

definition truediv :: "int \<Rightarrow> int \<Rightarrow> py_error + real" where
  "truediv a b =
     (if b = 0 then Inl ZeroDivisionError else Inr (real_of_int a / real_of_int b))"

definition calculate_percentage :: "int \<Rightarrow> int \<Rightarrow> py_error + real" where
  "calculate_percentage sz total_bytes =
     (if total_bytes > 0 then
        (case truediv sz total_bytes of Inl e \<Rightarrow> Inl e | Inr q \<Rightarrow> Inr (q * 100))
      else Inr 0)"

section \<open>Treemap\<close>

text \<open>
  \<^verbatim>\<open>Path(p).name\<close> for a POSIX path: the last component, where empty components and
  \<^verbatim>\<open>.\<close> do not count; the empty string when there is none.
\<close>

fun split_sep :: "char \<Rightarrow> string \<Rightarrow> string list" where
  "split_sep sep [] = [[]]"
| "split_sep sep (c # cs) =
     (if c = sep then [] # split_sep sep cs
      else (case split_sep sep cs of
              [] \<Rightarrow> [[c]]
            | w # ws \<Rightarrow> (c # w) # ws))"

definition path_name :: "string \<Rightarrow> string" where
  "path_name p =
     (case filter (\<lambda>part. part \<noteq> [] \<and> part \<noteq> ''.'') (split_sep CHR ''/'' p) of
        [] \<Rightarrow> []
      | parts \<Rightarrow> last parts)"

text \<open>
  \<^verbatim>\<open>sorted(xs, key=..., reverse=True)\<close> returns a new list. CPython reverses the list,
  sorts it stably in ascending order of the key, and reverses the result; the result of a
  stable sort does not depend on the algorithm, so the insertion sort \<open>sort_key\<close> stands
  for it.
\<close>

definition sorted_reverse :: "('a \<Rightarrow> int) \<Rightarrow> 'a list \<Rightarrow> 'a list" where
  "sorted_reverse key xs = rev (sort_key key (rev xs))"

text \<open>
  What \<^verbatim>\<open>_draw_treemap\<close> adds to the scene: for each item a \<^verbatim>\<open>TreemapRectItem\<close>
  (position, extent and the node) and, when the item is large enough, a text (its string,
  its position and its text width). One iteration of the loop is one pair of the
  result, so the scene is the list of pairs in order.
\<close>

datatype TreemapRectItem =
  TreemapRectItem (rect_x: real) (rect_y: real) (rect_w: real) (rect_h: real)
    (folder_info: FolderInfo)

datatype text_item =
  TextItem (plain_text: string) (pos_x: real) (pos_y: real) (text_width: real)

definition spacing :: real where
  "spacing = 5"

text \<open>
  The loop \<^verbatim>\<open>for idx, item in enumerate(sorted_items)\<close> with the cursor
  \<^verbatim>\<open>current_x\<close>, \<^verbatim>\<open>current_y\<close>. The parameter \<^verbatim>\<open>total_size\<close> of the source is
  \<open>total_bytes\<close> here.
\<close>

fun draw_loop ::
  "bool \<Rightarrow> real \<Rightarrow> real \<Rightarrow> int \<Rightarrow> real \<Rightarrow> real \<Rightarrow> FolderInfo list
     \<Rightarrow> (TreemapRectItem \<times> text_item option) list" where
  "draw_loop use_horizontal width height total_bytes current_x current_y [] = []"
| "draw_loop use_horizontal width height total_bytes current_x current_y (item # rest) =
     (let size_ratio =
            (if total_bytes > 0
             then real_of_int (total_size item) / real_of_int total_bytes else 0)
      in if use_horizontal then
           (let item_width = width * size_ratio;
                item_height = height;
                rect_item =
                  TreemapRectItem current_x current_y (item_width - spacing) item_height item;
                label =
                  (if item_width > 40 \<and> item_height > 30 then
                     Some (TextItem
                       (take 15 (path_name (path item)) @ [CHR 0x0A]
                          @ format_size (total_size item))
                       (current_x + 5) (current_y + 5) (item_width - 10))
                   else None)
            in (rect_item, label) #
               draw_loop use_horizontal width height total_bytes
                 (current_x + item_width) current_y rest)
         else
           (let item_width = width;
                item_height = height * size_ratio;
                rect_item =
                  TreemapRectItem current_x current_y item_width (item_height - spacing) item;
                label =
                  (if item_width > 40 \<and> item_height > 30 then
                     Some (TextItem
                       (take 15 (path_name (path item)) @ [CHR 0x0A]
                          @ format_size (total_size item))
                       (current_x + 5) (current_y + 5) (item_width - 10))
                   else None)
            in (rect_item, label) #
               draw_loop use_horizontal width height total_bytes
                 current_x (current_y + item_height) rest))"

definition draw_treemap ::
  "FolderInfo list \<Rightarrow> real \<Rightarrow> real \<Rightarrow> real \<Rightarrow> real \<Rightarrow> int
     \<Rightarrow> (TreemapRectItem \<times> text_item option) list" where
  "draw_treemap items x y width height total_bytes =
     (if items = [] \<or> width \<le> 0 \<or> height \<le> 0 then []
      else
        (let sorted_items = sorted_reverse total_size items;
             use_horizontal = (width \<ge> height)
         in draw_loop use_horizontal width height total_bytes x y sorted_items))"

text \<open>
  Geometry for the statements about the layout. A rectangle of non-positive width or
  height is empty; two rectangles overlap when both are non-empty and their interiors
  meet.
\<close>

definition rect_empty :: "TreemapRectItem \<Rightarrow> bool" where
  "rect_empty r = (rect_w r \<le> 0 \<or> rect_h r \<le> 0)"

definition overlap :: "TreemapRectItem \<Rightarrow> TreemapRectItem \<Rightarrow> bool" where
  "overlap r s =
     (\<not> rect_empty r \<and> \<not> rect_empty s
      \<and> rect_x r < rect_x s + rect_w s \<and> rect_x s < rect_x r + rect_w r
      \<and> rect_y r < rect_y s + rect_h s \<and> rect_y s < rect_y r + rect_h r)"

text \<open>
  The share of an item in the total, as the loop computes it in \<^verbatim>\<open>size_ratio\<close>, and
  the rectangles of a call without their labels.
\<close>

definition size_ratio :: "int \<Rightarrow> FolderInfo \<Rightarrow> real" where
  "size_ratio total_bytes item =
     (if total_bytes > 0 then real_of_int (total_size item) / real_of_int total_bytes else 0)"

definition placed_rects ::
  "FolderInfo list \<Rightarrow> real \<Rightarrow> real \<Rightarrow> real \<Rightarrow> real \<Rightarrow> int \<Rightarrow> TreemapRectItem list" where
  "placed_rects items x y width height total_bytes =
     map fst (draw_treemap items x y width height total_bytes)"

section \<open>Total size\<close>

text \<open>
  C2. The total size of a node is its own size plus the sum of the total sizes of its
  children; a node without children has its own size as total size, and a node of own
  size 0 without children has total size 0.
\<close>

theorem total_size_recursive:
  "total_size n = size_field n + sum_list (map total_size (children n))
   \<and> (children n = [] \<longrightarrow> total_size n = size_field n)
   \<and> total_size (FolderInfo p 0 []) = 0"
  by (cases n) simp

theorem total_size_recursive_witness:
  "children (FolderInfo ''/r/a'' 100 []) = []
   \<and> total_size (FolderInfo ''/r/a'' 100 []) = 100
   \<and> total_size (FolderInfo ''/r'' 0 [FolderInfo ''/r/a'' 100 [], FolderInfo ''/r/d'' 0 []]) = 100"
  using total_size_recursive [of "FolderInfo ''/r/a'' 100 []" "''/r''"]
    total_size_recursive
      [of "FolderInfo ''/r'' 0 [FolderInfo ''/r/a'' 100 [], FolderInfo ''/r/d'' 0 []]" "''/r''"]
  by simp

section \<open>Scanner\<close>

declare scan_folder.simps [simp del]

lemma scan_folder_fst:
  "fst (scan_folder c n item) =
     (if c n then FolderInfo (item_path item) 0 []
      else case iterdir item of
             Inr entries \<Rightarrow>
               (case fst (scan_items c (Suc n) [] entries) of
                  Inr kids \<Rightarrow> FolderInfo (item_path item) 0 kids
                | Inl e \<Rightarrow> FolderInfo (item_path item) 0 [])
           | Inl e \<Rightarrow> FolderInfo (item_path item) 0 [])"
  by (simp add: scan_folder.simps split: sum.splits prod.splits)

lemma scan_nonneg:
  "0 \<le> total_size (fst (scan_folder c n item))"
  "(\<forall>k \<in> set kids. 0 \<le> total_size k) \<Longrightarrow>
     \<forall>ks. fst (scan_items c n kids items) = Inr ks \<longrightarrow> (\<forall>k \<in> set ks. 0 \<le> total_size k)"
proof (induction c n item and c n kids items rule: scan_folder_scan_items.induct)
  case (1 c n item)
  show ?case
  proof (cases "c n")
    case True
    then show ?thesis by (simp add: scan_folder_fst)
  next
    case False
    show ?thesis
    proof (cases "iterdir item")
      case (Inl e)
      with False show ?thesis by (simp add: scan_folder_fst)
    next
      case (Inr entries)
      show ?thesis
      proof (cases "fst (scan_items c (Suc n) [] entries)")
        case err: (Inl e)
        with False Inr show ?thesis by (simp add: scan_folder_fst)
      next
        case ok: (Inr ks)
        have "\<forall>k \<in> set ks. 0 \<le> total_size k"
          using 1 [OF False Inr] ok by simp
        then have "0 \<le> sum_list (map total_size ks)"
          by (intro sum_list_nonneg) auto
        with False Inr ok show ?thesis by (simp add: scan_folder_fst)
      qed
    qed
  qed
next
  case (2 c n kids)
  then show ?case by simp
next
  case (3 c n kids item rest)
  note kids = \<open>\<forall>k \<in> set kids. 0 \<le> total_size k\<close>
  show ?case
  proof (cases "is_file item")
    case (Inl e)
    then show ?thesis by simp
  next
    case (Inr isf)
    show ?thesis
    proof (cases isf)
      case True
      show ?thesis
      proof (cases "stat_st_size item")
        case err: (Inl e)
        from 3(1) [OF Inr True err kids] Inr True err show ?thesis by simp
      next
        case ok: (Inr sz)
        have "\<forall>k \<in> set (kids @ [FolderInfo (item_path item) (int sz) []]). 0 \<le> total_size k"
          using kids by simp
        from 3(2) [OF Inr True ok this] Inr True ok show ?thesis by simp
      qed
    next
      case False
      show ?thesis
      proof (cases "is_dir item")
        case err: (Inl e)
        with Inr False show ?thesis by simp
      next
        case d: (Inr dir)
        show ?thesis
        proof (cases dir)
          case True
          obtain x y where xy: "scan_folder c n item = (x, y)"
            by (cases "scan_folder c n item")
          have "0 \<le> total_size x" using 3(3) [OF Inr False d True] xy by simp
          with kids have "\<forall>k \<in> set (kids @ [x]). 0 \<le> total_size k" by simp
          from 3(4) [OF Inr False d True xy [symmetric] this] Inr False d True xy
          show ?thesis by simp
        next
          case nd: False
          from 3(5) [OF Inr False d nd kids] Inr False d nd show ?thesis by simp
        qed
      qed
    qed
  qed
qed

lemma scan_le:
  "\<forall>m. total_size (fst (scan_folder c n item))
        \<le> total_size (fst (scan_folder never_cancelled m item))"
  "\<forall>m kids'. sum_list (map total_size kids) \<le> sum_list (map total_size kids') \<longrightarrow>
     (case (fst (scan_items c n kids items), fst (scan_items never_cancelled m kids' items)) of
        (Inr ks, Inr ks') \<Rightarrow> sum_list (map total_size ks) \<le> sum_list (map total_size ks')
      | (Inl e, Inl e') \<Rightarrow> True
      | _ \<Rightarrow> False)"
proof (induction c n item and c n kids items rule: scan_folder_scan_items.induct)
  case (1 c n item)
  show ?case
  proof (cases "c n")
    case True
    then show ?thesis using scan_nonneg(1) [of never_cancelled _ item]
      by (simp add: scan_folder_fst [of c])
  next
    case False
    show ?thesis
    proof (cases "iterdir item")
      case (Inl e)
      with False show ?thesis by (simp add: scan_folder_fst never_cancelled_def)
    next
      case (Inr entries)
      show ?thesis
      proof
        fix m
        from 1 [OF False Inr]
        have "case (fst (scan_items c (Suc n) [] entries),
                    fst (scan_items never_cancelled (Suc m) [] entries)) of
                (Inr ks, Inr ks') \<Rightarrow>
                   sum_list (map total_size ks) \<le> sum_list (map total_size ks')
              | (Inl e, Inl e') \<Rightarrow> True
              | _ \<Rightarrow> False"
          by simp
        with False Inr
        show "total_size (fst (scan_folder c n item))
                \<le> total_size (fst (scan_folder never_cancelled m item))"
          by (simp add: scan_folder_fst never_cancelled_def split: sum.splits)
      qed
    qed
  qed
next
  case (2 c n kids)
  show ?case by simp
next
  case (3 c n kids item rest)
  show ?case
  proof (intro allI impI)
    fix m kids'
    assume le: "sum_list (map total_size kids) \<le> sum_list (map total_size kids')"
    show "case (fst (scan_items c n kids (item # rest)),
                fst (scan_items never_cancelled m kids' (item # rest))) of
            (Inr ks, Inr ks') \<Rightarrow> sum_list (map total_size ks) \<le> sum_list (map total_size ks')
          | (Inl e, Inl e') \<Rightarrow> True
          | _ \<Rightarrow> False"
    proof (cases "is_file item")
      case (Inl e)
      then show ?thesis by simp
    next
      case (Inr isf)
      show ?thesis
      proof (cases isf)
        case True
        show ?thesis
        proof (cases "stat_st_size item")
          case err: (Inl e)
          from 3(1) [OF Inr True err] le Inr True err show ?thesis by simp
        next
          case ok: (Inr sz)
          from 3(2) [OF Inr True ok] le Inr True ok show ?thesis by simp
        qed
      next
        case False
        show ?thesis
        proof (cases "is_dir item")
          case err: (Inl e)
          with Inr False show ?thesis by simp
        next
          case d: (Inr dir)
          show ?thesis
          proof (cases dir)
            case True
            obtain x y where xy: "scan_folder c n item = (x, y)"
              by (cases "scan_folder c n item")
            obtain x' y' where xy': "scan_folder never_cancelled m item = (x', y')"
              by (cases "scan_folder never_cancelled m item")
            have "total_size x \<le> total_size x'"
              using 3(3) [OF Inr False d True] xy xy' by (metis fst_conv)
            with le have "sum_list (map total_size (kids @ [x]))
                            \<le> sum_list (map total_size (kids' @ [x']))" by simp
            with 3(4) [OF Inr False d True xy [symmetric]] Inr False d True xy xy'
            show ?thesis by simp
          next
            case nd: False
            from 3(5) [OF Inr False d nd] le Inr False d nd show ?thesis by simp
          qed
        qed
      qed
    qed
  qed
qed

text \<open>
  C1, as the code has it. A scan fails exactly when the root path denotes nothing or the
  test for its existence raises; the worker then emits the one failure message it has,
  whatever the cause. Every root that exists yields a tree, delivered by \<open>Finished\<close>,
  under any cancellation. A root that exists and cannot be listed is among them: its tree
  is the node of own size 0 without children.
\<close>

theorem scan_outcomes:
  "(scan cancelled lookup = None) = (lookup = Absent \<or> lookup = Raising)
   \<and> run cancelled root_path Absent =
         [Progress (''Scanning '' @ root_path @ ''...''), Error ''Failed to scan folder'']
   \<and> run cancelled root_path Raising =
         [Progress (''Scanning '' @ root_path @ ''...''), Error ''Failed to scan folder'']
   \<and> run cancelled root_path (Found item) =
         [Progress (''Scanning '' @ root_path @ ''...''),
          Finished (fst (scan_folder cancelled 0 item))]
   \<and> fst (scan_folder cancelled 0 (Dir p None)) = FolderInfo p 0 []"
  by (cases lookup) (simp_all add: run_def scan_folder_fst)

text \<open>
  C1 as stated fails: the root \<^verbatim>\<open>/locked\<close> exists and cannot be read, and the scan
  succeeds with a childless tree instead of failing.
\<close>

theorem scan_unreadable_root_counterexample:
  "scan never_cancelled (Found (Dir ''/locked'' None)) = Some (FolderInfo ''/locked'' 0 [])
   \<and> run never_cancelled ''/locked'' (Found (Dir ''/locked'' None)) =
         [Progress ''Scanning /locked...'', Finished (FolderInfo ''/locked'' 0 [])]"
  by (simp add: run_def scan_folder_fst never_cancelled_def)

text \<open>
  C3. A read of the flag that sees it set turns the directory being entered into a node
  of own size 0 without children. Whatever the reads see, the worker on an existing root
  ends with \<open>Finished\<close>, never with \<open>Error\<close>, and the total size of the tree it
  carries is non-negative and at most the total size of the tree of the scan that is
  never cancelled.
\<close>

theorem cancel_truncates:
  "(cancelled n \<longrightarrow>
      scan_folder cancelled n item = (FolderInfo (item_path item) 0 [], Suc n))
   \<and> run cancelled root_path (Found item) =
         [Progress (''Scanning '' @ root_path @ ''...''),
          Finished (fst (scan_folder cancelled 0 item))]
   \<and> run never_cancelled root_path (Found item) =
         [Progress (''Scanning '' @ root_path @ ''...''),
          Finished (fst (scan_folder never_cancelled 0 item))]
   \<and> 0 \<le> total_size (fst (scan_folder cancelled 0 item))
   \<and> total_size (fst (scan_folder cancelled 0 item))
         \<le> total_size (fst (scan_folder never_cancelled 0 item))"
  using scan_le(1) [of cancelled 0 item] scan_nonneg(1) [of cancelled 0 item]
  by (simp add: run_def scan_folder.simps [of cancelled n])

theorem cancel_truncates_witness:
  "cancelled_from 2 2
   \<and> scan_folder (cancelled_from 2) 2 (Dir ''/r/e'' (Some [RegFile ''/r/e/x'' (Some 7)]))
       = (FolderInfo ''/r/e'' 0 [], 3)
   \<and> run (cancelled_from 2) ''/r''
        (Found (Dir ''/r'' (Some [RegFile ''/r/a'' (Some 100),
                 Dir ''/r/d'' (Some [RegFile ''/r/d/x'' (Some 5)]),
                 Dir ''/r/e'' (Some [RegFile ''/r/e/x'' (Some 7)])])))
       = [Progress ''Scanning /r...'',
          Finished (FolderInfo ''/r'' 0
            [FolderInfo ''/r/a'' 100 [],
             FolderInfo ''/r/d'' 0 [FolderInfo ''/r/d/x'' 5 []],
             FolderInfo ''/r/e'' 0 []])]
   \<and> total_size (fst (scan_folder never_cancelled 0
        (Dir ''/r'' (Some [RegFile ''/r/a'' (Some 100),
                 Dir ''/r/d'' (Some [RegFile ''/r/d/x'' (Some 5)]),
                 Dir ''/r/e'' (Some [RegFile ''/r/e/x'' (Some 7)])])))) = 112"
  using cancel_truncates [of "cancelled_from 2" 2
      "Dir ''/r/e'' (Some [RegFile ''/r/e/x'' (Some 7)])" "''/r''"]
    cancel_truncates [of "cancelled_from 2" 0
      "Dir ''/r'' (Some [RegFile ''/r/a'' (Some 100),
                 Dir ''/r/d'' (Some [RegFile ''/r/d/x'' (Some 5)]),
                 Dir ''/r/e'' (Some [RegFile ''/r/e/x'' (Some 7)])])" "''/r''"]
  by (simp add: cancelled_from_def never_cancelled_def scan_folder.simps)

text \<open>
  C4, where the code departs from it. The directory \<^verbatim>\<open>/r\<close> lists a file of 100 bytes,
  a subdirectory whose listing fails, and a third entry. When the status of the third
  entry cannot be read, \<^verbatim>\<open>item.is_file()\<close> raises outside the inner \<^verbatim>\<open>try\<close>, the outer
  handler returns the node of \<^verbatim>\<open>/r\<close> without children, and both the file and the
  subdirectory are gone from the tree; the worker still ends with \<open>Finished\<close>. When the
  third entry is a regular file whose \<^verbatim>\<open>stat()\<close> fails inside the inner \<^verbatim>\<open>try\<close>, only
  that file is left out and the subdirectory is a childless node of own size 0.
\<close>

theorem entry_status_error_drops_siblings:
  "scan_folder never_cancelled 0
     (Dir ''/r'' (Some [RegFile ''/r/a'' (Some 100), Dir ''/r/locked'' None,
                        Unstattable ''/r/link'']))
     = (FolderInfo ''/r'' 0 [], 2)
   \<and> run never_cancelled ''/r''
        (Found (Dir ''/r'' (Some [RegFile ''/r/a'' (Some 100), Dir ''/r/locked'' None,
                                  Unstattable ''/r/link''])))
       = [Progress ''Scanning /r...'', Finished (FolderInfo ''/r'' 0 [])]
   \<and> scan_folder never_cancelled 0
        (Dir ''/r'' (Some [RegFile ''/r/a'' (Some 100), Dir ''/r/locked'' None,
                           RegFile ''/r/link'' None]))
       = (FolderInfo ''/r'' 0 [FolderInfo ''/r/a'' 100 [], FolderInfo ''/r/locked'' 0 []], 2)"
  by (simp add: run_def never_cancelled_def scan_folder.simps)

section \<open>Formatting and percentage\<close>

lemma format_size_ranges:
  fixes n :: int
  shows "n < 1024 \<Longrightarrow> format_size n = format_1f (real_of_int n) @ '' B''"
    and "1024 \<le> n \<Longrightarrow> n < 1024 ^ 2 \<Longrightarrow>
           format_size n = format_1f (real_of_int n / 1024) @ '' KB''"
    and "1024 ^ 2 \<le> n \<Longrightarrow> n < 1024 ^ 3 \<Longrightarrow>
           format_size n = format_1f (real_of_int n / 1024 ^ 2) @ '' MB''"
    and "1024 ^ 3 \<le> n \<Longrightarrow> n < 1024 ^ 4 \<Longrightarrow>
           format_size n = format_1f (real_of_int n / 1024 ^ 3) @ '' GB''"
    and "1024 ^ 4 \<le> n \<Longrightarrow> n < 1024 ^ 5 \<Longrightarrow>
           format_size n = format_1f (real_of_int n / 1024 ^ 4) @ '' TB''"
    and "1024 ^ 5 \<le> n \<Longrightarrow>
           format_size n = format_1f (real_of_int n / 1024 ^ 5) @ '' PB''"
  by (simp_all add: format_size_def)

text \<open>
  C9. \<open>format_size\<close> of 0, 1536 and 1048576 is \<^verbatim>\<open>0.0 B\<close>, \<^verbatim>\<open>1.5 KB\<close> and
  \<^verbatim>\<open>1.0 MB\<close>. A value below 1024 is written in \<^verbatim>\<open>B\<close>; a value from \<open>1024 ^ k\<close> up
  to \<open>1024 ^ (k + 1)\<close>, \<open>k < 5\<close>, is divided by \<open>1024 ^ k\<close> and written with one
  decimal in the \<open>k\<close>-th unit; every value from \<open>1024 ^ 5\<close> on is written in \<^verbatim>\<open>PB\<close>.
\<close>

theorem format_size_units:
  "format_size 0 = ''0.0 B''
   \<and> format_size 1536 = ''1.5 KB''
   \<and> format_size 1048576 = ''1.0 MB''
   \<and> (n < 1024 \<longrightarrow> format_size n = format_1f (real_of_int n) @ '' B'')
   \<and> (k < 5 \<and> 1024 ^ k \<le> n \<and> n < 1024 ^ Suc k \<longrightarrow>
        format_size n
          = format_1f (real_of_int n / 1024 ^ k) @ '' '' @ [''B'', ''KB'', ''MB'', ''GB'', ''TB''] ! k)
   \<and> (1024 ^ 5 \<le> n \<longrightarrow> format_size n = format_1f (real_of_int n / 1024 ^ 5) @ '' PB'')"
proof (intro conjI impI)
  show "format_size 0 = ''0.0 B''"
    by (simp add: format_size_def format_1f_def round_half_even_def str_nat.simps)
  show "format_size 1536 = ''1.5 KB''"
    by (simp add: format_size_def format_1f_def round_half_even_def str_nat.simps)
  show "format_size 1048576 = ''1.0 MB''"
    by (simp add: format_size_def format_1f_def round_half_even_def str_nat.simps)
  show "format_size n = format_1f (real_of_int n) @ '' B''" if "n < 1024"
    using that by (rule format_size_ranges(1))
  show "format_size n = format_1f (real_of_int n / 1024 ^ 5) @ '' PB''" if "1024 ^ 5 \<le> n"
    using that by (rule format_size_ranges(6))
  show "format_size n
          = format_1f (real_of_int n / 1024 ^ k) @ '' '' @ [''B'', ''KB'', ''MB'', ''GB'', ''TB''] ! k"
    if "k < 5 \<and> 1024 ^ k \<le> n \<and> n < 1024 ^ Suc k"
  proof -
    from that have "k = 0 \<or> k = 1 \<or> k = 2 \<or> k = 3 \<or> k = 4" by arith
    then show ?thesis
    proof (elim disjE)
      assume "k = 0"
      with that format_size_ranges(1) [of n] show ?thesis by simp
    next
      assume "k = 1"
      with that format_size_ranges(2) [of n] show ?thesis by simp
    next
      assume "k = 2"
      with that format_size_ranges(3) [of n] show ?thesis by (simp add: eval_nat_numeral)
    next
      assume "k = 3"
      with that format_size_ranges(4) [of n] show ?thesis by (simp add: eval_nat_numeral)
    next
      assume "k = 4"
      with that format_size_ranges(5) [of n] show ?thesis by (simp add: eval_nat_numeral)
    qed
  qed
qed

theorem format_size_units_witness:
  "(5::int) < 1024 \<and> format_size 5 = ''5.0 B''
   \<and> (2::nat) < 5 \<and> (1024::int) ^ 2 \<le> 123456789 \<and> (123456789::int) < 1024 ^ Suc 2
   \<and> format_size 123456789 = ''117.7 MB''
   \<and> (1024::int) ^ 5 \<le> 1125899906842624 \<and> format_size 1125899906842624 = ''1.0 PB''"
  using format_size_units [of 5 0] format_size_units [of 123456789 2]
    format_size_units [of 1125899906842624 0]
  by (simp add: format_size_def format_1f_def round_half_even_def str_nat.simps)

text \<open>
  C10. \<open>calculate_percentage\<close> is \<open>size / total * 100\<close> for a positive total and 0
  otherwise, and never the division error.
\<close>

theorem calculate_percentage_guarded:
  "(0 < total_bytes \<longrightarrow>
      calculate_percentage sz total_bytes
        = Inr (real_of_int sz / real_of_int total_bytes * 100))
   \<and> (total_bytes \<le> 0 \<longrightarrow> calculate_percentage sz total_bytes = Inr 0)
   \<and> calculate_percentage sz total_bytes \<noteq> Inl ZeroDivisionError"
  by (simp add: calculate_percentage_def truediv_def)

theorem calculate_percentage_guarded_witness:
  "(0::int) < 4 \<and> calculate_percentage 1 4 = Inr 25
   \<and> (0::int) \<le> 0 \<and> calculate_percentage 7 0 = Inr 0
   \<and> (-3::int) \<le> 0 \<and> calculate_percentage 7 (-3) = Inr 0"
  using calculate_percentage_guarded [of 4 1] calculate_percentage_guarded [of 0 7]
    calculate_percentage_guarded [of "-3" 7]
  by simp


section \<open>Layout\<close>

lemma draw_loop_length:
  "length (draw_loop uh w h t cx cy xs) = length xs"
  by (cases uh; induction xs arbitrary: cx cy) (simp_all add: Let_def)

lemma draw_loop_nodes:
  "map (folder_info \<circ> fst) (draw_loop uh w h t cx cy xs) = xs"
  by (cases uh; induction xs arbitrary: cx cy) (simp_all add: Let_def)

lemma draw_loop_rect:
  "i < length xs \<Longrightarrow>
     fst (draw_loop uh w h t cx cy xs ! i) =
       (if uh then
          TreemapRectItem (cx + sum_list (map (\<lambda>a. w * size_ratio t a) (take i xs))) cy
            (w * size_ratio t (xs ! i) - spacing) h (xs ! i)
        else
          TreemapRectItem cx (cy + sum_list (map (\<lambda>a. h * size_ratio t a) (take i xs)))
            w (h * size_ratio t (xs ! i) - spacing) (xs ! i))"
proof (induction xs arbitrary: cx cy i)
  case Nil
  then show ?case by simp
next
  case (Cons a xs)
  show ?case
  proof (cases i)
    case 0
    then show ?thesis by (simp add: Let_def size_ratio_def)
  next
    case (Suc k)
    with Cons.prems have k: "k < length xs" by simp
    show ?thesis
    proof (cases uh)
      case True
      with Suc Cons.IH [OF k, of "cx + w * size_ratio t a" cy] show ?thesis
        by (simp add: Let_def size_ratio_def add.assoc)
    next
      case False
      with Suc Cons.IH [OF k, of cx "cy + h * size_ratio t a"] show ?thesis
        by (simp add: Let_def size_ratio_def add.assoc)
    qed
  qed
qed

lemma draw_loop_label:
  "(r, l) \<in> set (draw_loop uh w h t cx cy xs) \<Longrightarrow>
     l = (if (if uh then rect_w r + spacing else rect_w r) > 40
             \<and> (if uh then rect_h r else rect_h r + spacing) > 30
          then Some (TextItem
                 (take 15 (path_name (path (folder_info r))) @ [CHR 0x0A]
                    @ format_size (total_size (folder_info r)))
                 (rect_x r + 5) (rect_y r + 5)
                 ((if uh then rect_w r + spacing else rect_w r) - 10))
          else None)"
proof (induction xs arbitrary: cx cy)
  case Nil
  then show ?case by simp
next
  case (Cons a xs)
  show ?case
  proof (cases uh)
    case True
    with Cons.prems Cons.IH show ?thesis
      by (auto simp: Let_def)
  next
    case False
    with Cons.prems Cons.IH show ?thesis
      by (auto simp: Let_def)
  qed
qed


lemma prefix_sum_mono:
  fixes f :: "'a \<Rightarrow> real"
  assumes "\<forall>a \<in> set xs. 0 \<le> f a" and "i \<le> j"
  shows "sum_list (map f (take i xs)) \<le> sum_list (map f (take j xs))"
proof -
  have split: "take j xs = take i xs @ drop i (take j xs)"
    using assms(2) by (metis append_take_drop_id min.absorb1 take_take)
  have "0 \<le> sum_list (map f (drop i (take j xs)))"
  proof (intro sum_list_nonneg)
    fix v
    assume "v \<in> set (map f (drop i (take j xs)))"
    then obtain a where "a \<in> set (drop i (take j xs))" and v: "v = f a" by auto
    then have "a \<in> set xs" by (meson in_set_dropD in_set_takeD)
    with assms(1) v show "0 \<le> v" by simp
  qed
  moreover have "sum_list (map f (take j xs))
      = sum_list (map f (take i xs)) + sum_list (map f (drop i (take j xs)))"
    by (subst split) simp
  ultimately show ?thesis by simp
qed

lemma prefix_sum_Suc:
  fixes f :: "'a \<Rightarrow> real"
  shows "i < length xs \<Longrightarrow>
    sum_list (map f (take (Suc i) xs)) = sum_list (map f (take i xs)) + f (xs ! i)"
  by (simp add: take_Suc_conv_app_nth)

lemma sum_size_ratio:
  "0 < t \<Longrightarrow> sum_list (map (size_ratio t) xs)
     = real_of_int (sum_list (map total_size xs)) / real_of_int t"
  by (induction xs) (simp_all add: size_ratio_def add_divide_distrib)

lemma sum_scaled_ratio_le:
  assumes "\<forall>a \<in> set xs. 0 \<le> total_size a"
    and "sum_list (map total_size xs) \<le> t" and "0 < e"
  shows "sum_list (map (\<lambda>a. e * size_ratio t a) xs) \<le> e"
proof -
  have eq: "sum_list (map (\<lambda>a. e * size_ratio t a) xs) = e * sum_list (map (size_ratio t) xs)"
    by (simp add: sum_list_const_mult)
  have "sum_list (map (size_ratio t) xs) \<le> 1"
  proof (cases "0 < t")
    case True
    then show ?thesis using assms(2) by (simp add: sum_size_ratio)
  next
    case False
    then have "sum_list (map (size_ratio t) xs) = 0"
      by (induction xs) (simp_all add: size_ratio_def)
    then show ?thesis by simp
  qed
  with assms(3) have "e * sum_list (map (size_ratio t) xs) \<le> e * 1"
    by (intro mult_left_mono) simp_all
  with eq show ?thesis by simp
qed

lemma size_ratio_nonneg: "0 \<le> total_size a \<Longrightarrow> 0 \<le> size_ratio t a"
  by (simp add: size_ratio_def)

lemma sum_list_sorted_reverse:
  fixes g :: "'a \<Rightarrow> 'b::comm_monoid_add"
  shows "sum_list (map g (sorted_reverse key xs)) = sum_list (map g xs)"
proof -
  have "mset (map g (sorted_reverse key xs)) = mset (map g xs)"
    by (simp add: sorted_reverse_def)
  then show ?thesis by (metis sum_mset_sum_list)
qed

lemma set_sorted_reverse: "set (sorted_reverse key xs) = set xs"
  by (simp add: sorted_reverse_def)

lemma length_sorted_reverse: "length (sorted_reverse key xs) = length xs"
  by (simp add: sorted_reverse_def)


text \<open>
  C5. For children of non-negative total sizes whose sum is at most the total given, and
  bounds of positive width and height: no two rectangles of a call overlap; each
  rectangle has its origin inside the bounds and ends before the far edges, so a non-empty
  one lies within the bounds; along the slice axis each rectangle starts where the one
  before ended plus the spacing, the first at the origin of the bounds, with an extent of
  its share less the spacing; across, each has the origin and the full extent of the
  bounds.
\<close>

theorem layout_disjoint_within_bounds:
  assumes nonneg: "\<forall>c \<in> set items. 0 \<le> total_size c"
    and total: "sum_list (map total_size items) \<le> total_bytes"
    and width: "0 < width" and height: "0 < height"
  shows
    "(let rs = placed_rects items x y width height total_bytes in
       (\<forall>i j. i < j \<and> j < length rs \<longrightarrow> \<not> overlap (rs ! i) (rs ! j))
       \<and> (\<forall>r \<in> set rs.
             x \<le> rect_x r \<and> rect_x r + rect_w r \<le> x + width
             \<and> y \<le> rect_y r \<and> rect_y r + rect_h r \<le> y + height)
       \<and> (\<forall>i. i < length rs \<longrightarrow>
             (if width \<ge> height then
                rect_x (rs ! i)
                  = (if i = 0 then x
                     else rect_x (rs ! (i - 1)) + rect_w (rs ! (i - 1)) + spacing)
                \<and> rect_w (rs ! i)
                    = width * size_ratio total_bytes (folder_info (rs ! i)) - spacing
                \<and> rect_y (rs ! i) = y \<and> rect_h (rs ! i) = height
              else
                rect_y (rs ! i)
                  = (if i = 0 then y
                     else rect_y (rs ! (i - 1)) + rect_h (rs ! (i - 1)) + spacing)
                \<and> rect_h (rs ! i)
                    = height * size_ratio total_bytes (folder_info (rs ! i)) - spacing
                \<and> rect_x (rs ! i) = x \<and> rect_w (rs ! i) = width)))"
proof -
  define xs where "xs = sorted_reverse total_size items"
  define uh where "uh = (width \<ge> height)"
  define e where "e = (if uh then width else height)"
  define f where "f = (\<lambda>a. e * size_ratio total_bytes a)"
  define S where "S = (\<lambda>i. sum_list (map f (take i xs)))"
  define rs where "rs = placed_rects items x y width height total_bytes"
  have e: "0 < e" using width height by (simp add: e_def)
  have set_xs: "set xs = set items" by (simp add: xs_def set_sorted_reverse)
  have f_nonneg: "\<forall>a \<in> set xs. 0 \<le> f a"
    using nonneg e set_xs by (simp add: f_def size_ratio_nonneg)
  have rs: "rs = map fst (draw_loop uh width height total_bytes x y xs)"
  proof (cases "items = []")
    case True
    then show ?thesis
      by (simp add: rs_def placed_rects_def draw_treemap_def xs_def sorted_reverse_def)
  next
    case False
    with width height show ?thesis
      by (simp add: rs_def placed_rects_def draw_treemap_def xs_def uh_def Let_def)
  qed
  have len: "length rs = length xs" by (simp add: rs draw_loop_length)
  have nth: "rs ! i =
       (if uh then TreemapRectItem (x + S i) y (f (xs ! i) - spacing) height (xs ! i)
        else TreemapRectItem x (y + S i) width (f (xs ! i) - spacing) (xs ! i))"
    if "i < length xs" for i
    using that draw_loop_rect [OF that, of uh width height total_bytes x y]
    by (simp add: rs draw_loop_length S_def f_def e_def)
  have S_mono: "S i \<le> S j" if "i \<le> j" for i j
    unfolding S_def using f_nonneg that by (rule prefix_sum_mono)
  have S_0: "S 0 = 0" by (simp add: S_def)
  have S_Suc: "S (Suc i) = S i + f (xs ! i)" if "i < length xs" for i
    unfolding S_def using that by (rule prefix_sum_Suc)
  have "sum_list (map f xs) = sum_list (map f items)"
    by (simp add: xs_def sum_list_sorted_reverse)
  also have "\<dots> \<le> e"
    unfolding f_def using nonneg total e by (rule sum_scaled_ratio_le)
  finally have S_all: "S (length xs) \<le> e" by (simp add: S_def)
  have S_nonneg: "0 \<le> S i" for i using S_mono [of 0 i] S_0 by simp
  have S_end: "S i + f (xs ! i) \<le> e" if "i < length xs" for i
    using S_Suc [OF that] S_mono [of "Suc i" "length xs"] S_all that by simp
  have disjoint: "\<not> overlap (rs ! i) (rs ! j)" if "i < j" and "j < length rs" for i j
  proof -
    from that len have i: "i < length xs" and j: "j < length xs" by simp_all
    have "S i + f (xs ! i) \<le> S j"
      using S_Suc [OF i] S_mono [of "Suc i" j] that(1) by simp
    then show ?thesis
      by (simp add: overlap_def nth [OF i] nth [OF j] spacing_def)
  qed
  have inside: "x \<le> rect_x r \<and> rect_x r + rect_w r \<le> x + width
      \<and> y \<le> rect_y r \<and> rect_y r + rect_h r \<le> y + height" if "r \<in> set rs" for r
  proof -
    from that obtain i where i: "i < length xs" and r: "r = rs ! i"
      by (metis in_set_conv_nth len)
    from S_end [OF i] S_nonneg [of i] show ?thesis
      by (simp add: r nth [OF i] spacing_def e_def split: if_splits)
  qed
  have cursor: "(if width \<ge> height then
                rect_x (rs ! i)
                  = (if i = 0 then x
                     else rect_x (rs ! (i - 1)) + rect_w (rs ! (i - 1)) + spacing)
                \<and> rect_w (rs ! i)
                    = width * size_ratio total_bytes (folder_info (rs ! i)) - spacing
                \<and> rect_y (rs ! i) = y \<and> rect_h (rs ! i) = height
              else
                rect_y (rs ! i)
                  = (if i = 0 then y
                     else rect_y (rs ! (i - 1)) + rect_h (rs ! (i - 1)) + spacing)
                \<and> rect_h (rs ! i)
                    = height * size_ratio total_bytes (folder_info (rs ! i)) - spacing
                \<and> rect_x (rs ! i) = x \<and> rect_w (rs ! i) = width)"
    if "i < length rs" for i
  proof (cases i)
    case 0
    with that len have i: "0 < length xs" by simp
    show ?thesis
      using S_0 by (simp add: 0 nth [OF i] uh_def f_def e_def)
  next
    case (Suc k)
    with that len have k: "k < length xs" and i: "Suc k < length xs" by simp_all
    show ?thesis
      using S_Suc [OF k] by (simp add: Suc nth [OF i] nth [OF k] uh_def f_def e_def)
  qed
  from disjoint inside cursor show ?thesis
    unfolding rs_def [symmetric] Let_def by blast
qed


theorem layout_disjoint_within_bounds_witness:
  "0 \<le> total_size (FolderInfo ''/r/b'' 1 [])
   \<and> 0 \<le> total_size (FolderInfo ''/r/a'' 3 [])
   \<and> 0 \<le> total_size (FolderInfo ''/r/c'' 1 [])
   \<and> sum_list (map total_size
         [FolderInfo ''/r/b'' 1 [], FolderInfo ''/r/a'' 3 [], FolderInfo ''/r/c'' 1 []]) \<le> 5
   \<and> (0::real) < 400 \<and> (0::real) < 100
   \<and> placed_rects [FolderInfo ''/r/b'' 1 [], FolderInfo ''/r/a'' 3 [], FolderInfo ''/r/c'' 1 []]
         20 20 400 100 5
       = [TreemapRectItem 20 20 235 100 (FolderInfo ''/r/a'' 3 []),
          TreemapRectItem 260 20 75 100 (FolderInfo ''/r/b'' 1 []),
          TreemapRectItem 340 20 75 100 (FolderInfo ''/r/c'' 1 [])]
   \<and> \<not> overlap (TreemapRectItem 20 20 235 100 (FolderInfo ''/r/a'' 3 []))
                (TreemapRectItem 260 20 75 100 (FolderInfo ''/r/b'' 1 []))"
proof -
  let ?items = "[FolderInfo ''/r/b'' 1 [], FolderInfo ''/r/a'' 3 [], FolderInfo ''/r/c'' 1 []]"
  have h1: "\<forall>c \<in> set ?items. 0 \<le> total_size c" by simp
  have h2: "sum_list (map total_size ?items) \<le> 5" by simp
  have h3: "(0::real) < 400" and h4: "(0::real) < 100" by simp_all
  have rs: "placed_rects ?items 20 20 400 100 5
       = [TreemapRectItem 20 20 235 100 (FolderInfo ''/r/a'' 3 []),
          TreemapRectItem 260 20 75 100 (FolderInfo ''/r/b'' 1 []),
          TreemapRectItem 340 20 75 100 (FolderInfo ''/r/c'' 1 [])]"
    by (simp add: placed_rects_def draw_treemap_def sorted_reverse_def spacing_def Let_def)
  from layout_disjoint_within_bounds [OF h1 h2 h3 h4, of 20 20]
  have "\<forall>i j. i < j \<and> j < length (placed_rects ?items 20 20 400 100 5) \<longrightarrow>
          \<not> overlap (placed_rects ?items 20 20 400 100 5 ! i)
                    (placed_rects ?items 20 20 400 100 5 ! j)"
    unfolding Let_def by (rule conjunct1)
  then have "0 < (1::nat) \<and> 1 < length (placed_rects ?items 20 20 400 100 5) \<longrightarrow>
          \<not> overlap (placed_rects ?items 20 20 400 100 5 ! 0)
                    (placed_rects ?items 20 20 400 100 5 ! 1)"
    by blast
  then have "\<not> overlap (TreemapRectItem 20 20 235 100 (FolderInfo ''/r/a'' 3 []))
                (TreemapRectItem 260 20 75 100 (FolderInfo ''/r/b'' 1 []))"
    by (simp add: rs)
  with h2 h3 h4 rs show ?thesis by simp
qed

text \<open>
  C6. Two children of total sizes 3 and 1, total 4, in bounds of width 100 and height 10:
  the layout slices along x; the first rectangle has width 75 less the spacing, the second
  starts 75 further and has width 25 less the spacing; both have the height 10 of the
  bounds and they do not overlap.
\<close>

theorem layout_three_to_one:
  assumes "total_size a = 3" and "total_size b = 1"
  shows "draw_treemap [a, b] x y 100 10 4
           = [(TreemapRectItem x y (75 - spacing) 10 a, None),
              (TreemapRectItem (x + 75) y (25 - spacing) 10 b, None)]
         \<and> \<not> overlap (TreemapRectItem x y (75 - spacing) 10 a)
                      (TreemapRectItem (x + 75) y (25 - spacing) 10 b)"
  using assms
  by (simp add: draw_treemap_def sorted_reverse_def overlap_def rect_empty_def spacing_def
        Let_def)

theorem layout_three_to_one_witness:
  "total_size (FolderInfo ''/r/a'' 3 []) = 3 \<and> total_size (FolderInfo ''/r/b'' 1 []) = 1
   \<and> draw_treemap [FolderInfo ''/r/a'' 3 [], FolderInfo ''/r/b'' 1 []] 20 20 100 10 4
       = [(TreemapRectItem 20 20 70 10 (FolderInfo ''/r/a'' 3 []), None),
          (TreemapRectItem 95 20 20 10 (FolderInfo ''/r/b'' 1 []), None)]"
proof -
  have h1: "total_size (FolderInfo ''/r/a'' 3 []) = 3" by simp
  have h2: "total_size (FolderInfo ''/r/b'' 1 []) = 1" by simp
  from layout_three_to_one [OF h1 h2, of 20 20] h1 h2 show ?thesis
    by (simp add: spacing_def)
qed

text \<open>
  C8. Every item gets a rectangle. Its text is there exactly when the width allotted to
  the item exceeds 40 and the height allotted exceeds 30, the allotted extent along the
  slice axis being that of the rectangle plus the spacing; the text is the first 15
  characters of the last segment of the path, a line break and the formatted total size.
\<close>

theorem label_threshold:
  "(\<forall>(r, l) \<in> set (draw_treemap items x y width height total_bytes).
      l = (if 40 < (if width \<ge> height then rect_w r + spacing else rect_w r)
              \<and> 30 < (if width \<ge> height then rect_h r else rect_h r + spacing)
           then Some (TextItem
                  (take 15 (path_name (path (folder_info r))) @ [CHR 0x0A]
                     @ format_size (total_size (folder_info r)))
                  (rect_x r + 5) (rect_y r + 5)
                  ((if width \<ge> height then rect_w r + spacing else rect_w r) - 10))
           else None))
   \<and> map (folder_info \<circ> fst) (draw_treemap items x y width height total_bytes)
       = (if items = [] \<or> width \<le> 0 \<or> height \<le> 0 then []
          else sorted_reverse total_size items)"
proof (intro conjI)
  show "\<forall>(r, l) \<in> set (draw_treemap items x y width height total_bytes).
      l = (if 40 < (if width \<ge> height then rect_w r + spacing else rect_w r)
              \<and> 30 < (if width \<ge> height then rect_h r else rect_h r + spacing)
           then Some (TextItem
                  (take 15 (path_name (path (folder_info r))) @ [CHR 0x0A]
                     @ format_size (total_size (folder_info r)))
                  (rect_x r + 5) (rect_y r + 5)
                  ((if width \<ge> height then rect_w r + spacing else rect_w r) - 10))
           else None)"
  proof (cases "items = [] \<or> width \<le> 0 \<or> height \<le> 0")
    case True
    then show ?thesis by (auto simp: draw_treemap_def)
  next
    case False
    then have "draw_treemap items x y width height total_bytes
        = draw_loop (width \<ge> height) width height total_bytes x y
            (sorted_reverse total_size items)"
      by (simp add: draw_treemap_def Let_def)
    then show ?thesis
      using draw_loop_label [of _ _ "width \<ge> height" width height total_bytes x y
          "sorted_reverse total_size items"]
      by auto
  qed
  show "map (folder_info \<circ> fst) (draw_treemap items x y width height total_bytes)
       = (if items = [] \<or> width \<le> 0 \<or> height \<le> 0 then []
          else sorted_reverse total_size items)"
    by (simp add: draw_treemap_def Let_def draw_loop_nodes)
qed

theorem label_threshold_witness:
  "draw_treemap [FolderInfo ''/r/b.iso'' 1 [], FolderInfo ''/r/a_long_name_of_a_folder'' 3 []]
      0 0 100 35 4
     = [(TreemapRectItem 0 0 70 35 (FolderInfo ''/r/a_long_name_of_a_folder'' 3 []),
         Some (TextItem (''a_long_name_of_'' @ [CHR 0x0A] @ ''3.0 B'') 5 5 65)),
        (TreemapRectItem 75 0 20 35 (FolderInfo ''/r/b.iso'' 1 []), None)]"
  using label_threshold [of "[FolderInfo ''/r/b.iso'' 1 [],
      FolderInfo ''/r/a_long_name_of_a_folder'' 3 []]" 0 0 100 35 4]
  by (simp add: draw_treemap_def sorted_reverse_def spacing_def Let_def path_name_def
        format_size_def format_1f_def round_half_even_def str_nat.simps)

section \<open>Order of the layout\<close>

text \<open>
  C7. The sequence that the layout walks is in descending order of total size, has the
  elements of the input, and keeps the children of any one total size in their input
  order; the nodes of the rectangles of a call are this sequence. The input list is an
  argument of a function and the sorted list a new value, as \<^verbatim>\<open>sorted\<close> builds a new list
  and leaves its argument alone.
\<close>

theorem sorted_reverse_stable:
  "sorted_wrt (\<lambda>a b. total_size a \<ge> total_size b) (sorted_reverse total_size items)
   \<and> mset (sorted_reverse total_size items) = mset items
   \<and> filter (\<lambda>c. total_size c = k) (sorted_reverse total_size items)
       = filter (\<lambda>c. total_size c = k) items
   \<and> map (folder_info \<circ> fst) (draw_treemap items x y width height total_bytes)
       = (if items = [] \<or> width \<le> 0 \<or> height \<le> 0 then []
          else sorted_reverse total_size items)"
proof (intro conjI)
  show "map (folder_info \<circ> fst) (draw_treemap items x y width height total_bytes)
       = (if items = [] \<or> width \<le> 0 \<or> height \<le> 0 then []
          else sorted_reverse total_size items)"
    by (simp add: draw_treemap_def Let_def draw_loop_nodes)
  have "sorted (map total_size (sort_key total_size (rev items)))" by simp
  then have "sorted_wrt (\<lambda>a b. total_size a \<le> total_size b) (sort_key total_size (rev items))"
    by (simp add: sorted_map)
  then show "sorted_wrt (\<lambda>a b. total_size a \<ge> total_size b) (sorted_reverse total_size items)"
    by (simp add: sorted_reverse_def sorted_wrt_rev)
  show "mset (sorted_reverse total_size items) = mset items"
    by (simp add: sorted_reverse_def)
  have "filter (\<lambda>c. total_size c = k) (sort_key total_size (rev items))
          = filter (\<lambda>c. total_size c = k) (rev items)"
    by (rule sort_key_stable)
  then show "filter (\<lambda>c. total_size c = k) (sorted_reverse total_size items)
               = filter (\<lambda>c. total_size c = k) items"
    by (simp add: sorted_reverse_def rev_filter [symmetric])
qed

theorem sorted_reverse_stable_witness:
  "sorted_reverse total_size
     [FolderInfo ''/r/b'' 1 [], FolderInfo ''/r/a'' 3 [], FolderInfo ''/r/c'' 1 []]
     = [FolderInfo ''/r/a'' 3 [], FolderInfo ''/r/b'' 1 [], FolderInfo ''/r/c'' 1 []]
   \<and> filter (\<lambda>c. total_size c = 1)
         (sorted_reverse total_size
            [FolderInfo ''/r/b'' 1 [], FolderInfo ''/r/a'' 3 [], FolderInfo ''/r/c'' 1 []])
       = [FolderInfo ''/r/b'' 1 [], FolderInfo ''/r/c'' 1 []]"
  using sorted_reverse_stable
    [of "[FolderInfo ''/r/b'' 1 [], FolderInfo ''/r/a'' 3 [], FolderInfo ''/r/c'' 1 []]" 1]
  by (simp add: sorted_reverse_def)

end
